theory Spec2Isabelle
  imports Main
begin

section \<open>The container of ArrayList.hpp\<close>

text \<open>
  \<^verbatim>\<open>AL::ArrayList<T>\<close> owns one heap array through \<^verbatim>\<open>m_data\<close>, of which the first
  \<^verbatim>\<open>m_size\<close> of \<^verbatim>\<open>m_capacity\<close> slots are in use. No two containers ever share an
  array (copies allocate, moves and swaps hand the pointer over), so the record holds the
  cells of the array by value; the null pointer of a moved-from container is the array
  without cells. \<^verbatim>\<open>size_type\<close> is modelled by \<open>nat\<close>: the arithmetic on it is
  \<^verbatim>\<open>m_capacity * 2\<close>, \<^verbatim>\<open>size() + other.size()\<close> and the increments of
  \<^verbatim>\<open>m_size\<close>, all bounded by the number of slots of an array that has been allocated.
  Allocation is taken to succeed.
\<close>

record 'a ArrayList =
  m_capacity :: nat
  m_size :: nat
  m_data :: "'a list"

text \<open>
  \<^verbatim>\<open>std::out_of_range\<close> is the only exception the source throws. The second value marks
  a call whose behaviour C++ leaves undefined, because an algorithm of the standard
  library is handed iterators that do not form a range of one live array.
\<close>

datatype error = OutOfRange | UndefinedBehaviour

text \<open>
  \<^verbatim>\<open>new value_type[n]{}\<close> value-initialises every slot, \<^verbatim>\<open>new value_type[n]\<close>
  (in \<^verbatim>\<open>operator+=\<close>) leaves the slots of a scalar type indeterminate: their contents
  are a parameter of the model.
\<close>

definition new_array :: "nat \<Rightarrow> 'a::default list" where
  "new_array n = replicate n default"

definition new_array_uninit :: "(nat \<Rightarrow> 'a) \<Rightarrow> nat \<Rightarrow> 'a list" where
  "new_array_uninit junk n = map junk [0..<n]"

instantiation int :: default
begin

definition default_int :: int where
  "default_int = 0"

instance ..

end

subsection \<open>The algorithms of the standard library\<close>

text \<open>
  \<^verbatim>\<open>std::copy(first, last, d_first)\<close> from one array into another one, slot by slot.
  The loop of the library runs while \<^verbatim>\<open>first != last\<close>; on the ranges the container
  builds here (\<^verbatim>\<open>begin()\<close> to \<^verbatim>\<open>end()\<close>, or to a limit not after \<^verbatim>\<open>end()\<close>)
  that is \<open>first < last\<close>.
\<close>

function std_copy :: "'a list \<Rightarrow> nat \<Rightarrow> nat \<Rightarrow> 'a list \<Rightarrow> nat \<Rightarrow> 'a list" where
  "std_copy src first last' dst d_first =
     (if first < last'
      then std_copy src (Suc first) last' (dst[d_first := src ! first]) (Suc d_first)
      else dst)"
  by pat_completeness auto
termination
  by (relation "measure (\<lambda>(src, first, last', dst, d_first). last' - first)") auto

declare std_copy.simps [simp del]

text \<open>
  The same loop when source and destination are slots of one array (\<^verbatim>\<open>erase\<close>): every
  read sees the writes made before it.
\<close>

function copy_within :: "'a list \<Rightarrow> nat \<Rightarrow> nat \<Rightarrow> nat \<Rightarrow> 'a list" where
  "copy_within a first last' d_first =
     (if first < last'
      then copy_within (a[d_first := a ! first]) (Suc first) last' (Suc d_first)
      else a)"
  by pat_completeness auto
termination
  by (relation "measure (\<lambda>(a, first, last', d_first). last' - first)") auto

declare copy_within.simps [simp del]

text \<open>
  \<^verbatim>\<open>std::copy_backward(first, last, d_last)\<close> inside one array:
  \<^verbatim>\<open>while (first != last) *--d_last = *--last;\<close>
\<close>

function copy_backward_within :: "'a list \<Rightarrow> nat \<Rightarrow> nat \<Rightarrow> nat \<Rightarrow> 'a list" where
  "copy_backward_within a first last' d_last =
     (if first < last'
      then copy_backward_within (a[d_last - 1 := a ! (last' - 1)]) first (last' - 1) (d_last - 1)
      else a)"
  by pat_completeness auto
termination
  by (relation "measure (\<lambda>(a, first, last', d_last). last' - first)") auto

declare copy_backward_within.simps [simp del]

text \<open>
  \<^verbatim>\<open>std::equal(first1, last1, first2, last2)\<close>, with the two ranges given by their first
  slot and their number of slots: it walks both ranges together and answers whether both
  ended at the same step without a mismatch.
\<close>

fun std_equal :: "'a list \<Rightarrow> nat \<Rightarrow> nat \<Rightarrow> 'a list \<Rightarrow> nat \<Rightarrow> nat \<Rightarrow> bool" where
  "std_equal a i 0 b j 0 = True"
| "std_equal a i 0 b j (Suc m) = False"
| "std_equal a i (Suc n) b j 0 = False"
| "std_equal a i (Suc n) b j (Suc m) = (a ! i = b ! j \<and> std_equal a (Suc i) n b (Suc j) m)"

subsection \<open>Iterators\<close>

text \<open>
  An \<^verbatim>\<open>Iterator\<close> wraps a raw pointer. A pointer is a slot offset into an array; the
  offset may lie before the first slot or after the last one. Inside one call of a member
  function there are at most two arrays: the one \<^verbatim>\<open>m_data\<close> holds when the call
  starts, and the one that the growth block of the call allocates (\<^verbatim>\<open>temp\<close>).
  A position argument \<^verbatim>\<open>pos\<close> of \<^verbatim>\<open>insert\<close> and \<^verbatim>\<open>erase\<close> is given by its offset
  from \<^verbatim>\<open>begin()\<close>, and so is the iterator they return (from \<^verbatim>\<open>begin()\<close> of the
  container after the call). The struct declares no \<^verbatim>\<open>operator+\<close>: \<^verbatim>\<open>pos + 1\<close> in
  \<^verbatim>\<open>erase\<close> and \<^verbatim>\<open>begin() + size()\<close> in \<^verbatim>\<open>operator+=\<close> are read as the pointer
  moved by that many slots.
\<close>

datatype array_id = Held | Temp

datatype pointer = Ptr (arr: array_id) (off: int)

definition incr :: "pointer \<Rightarrow> pointer" where
  "incr p = Ptr (arr p) (off p + 1)"

text \<open>
  The algorithms on iterators. \<open>cur\<close> names the array that is alive and \<open>a\<close> are its
  cells. The result is \<open>None\<close> where the library leaves the call undefined: an iterator
  into another array (one that has been released), a first iterator after the last one,
  slots outside the array, or a destination inside the source range
  (\<^verbatim>\<open>d_first\<close> in \<^verbatim>\<open>[first, last)\<close> for \<^verbatim>\<open>std::copy\<close>, \<^verbatim>\<open>d_last\<close> in
  \<^verbatim>\<open>(first, last]\<close> for \<^verbatim>\<open>std::copy_backward\<close>).
\<close>

definition copy_it :: "array_id \<Rightarrow> 'a list \<Rightarrow> pointer \<Rightarrow> pointer \<Rightarrow> pointer \<Rightarrow> 'a list option" where
  "copy_it cur a first last' d_first =
     (if arr first = cur \<and> arr last' = cur \<and> arr d_first = cur
         \<and> 0 \<le> off first \<and> off first \<le> off last' \<and> off last' \<le> int (length a)
         \<and> 0 \<le> off d_first \<and> off d_first + (off last' - off first) \<le> int (length a)
         \<and> (off d_first < off first \<or> off last' \<le> off d_first)
      then Some (copy_within a (nat (off first)) (nat (off last')) (nat (off d_first)))
      else None)"

definition copy_backward_it :: "array_id \<Rightarrow> 'a list \<Rightarrow> pointer \<Rightarrow> pointer \<Rightarrow> pointer \<Rightarrow> 'a list option" where
  "copy_backward_it cur a first last' d_last =
     (if arr first = cur \<and> arr last' = cur \<and> arr d_last = cur
         \<and> 0 \<le> off first \<and> off first \<le> off last' \<and> off last' \<le> int (length a)
         \<and> off last' - off first \<le> off d_last \<and> off d_last \<le> int (length a)
         \<and> (off d_last \<le> off first \<or> off last' < off d_last)
      then Some (copy_backward_within a (nat (off first)) (nat (off last')) (nat (off d_last)))
      else None)"

subsection \<open>References to the value\<close>

text \<open>
  \<^verbatim>\<open>push_back\<close> and \<^verbatim>\<open>insert\<close> take the value as \<^verbatim>\<open>const value_type&\<close> and read
  it late, in the assignment that stores it. The reference names either an object outside
  the array of the container, given here by its value, or a slot of the array that
  \<^verbatim>\<open>m_data\<close> holds when the call starts, as in \<^verbatim>\<open>a.push_back(a[0])\<close>. A slot can be
  read while that array is alive; once the growth block has released it, or for a slot
  that the array does not have, the read is undefined. \<open>cur\<close> names the array that is
  alive at the read and \<open>a\<close> are its cells.
\<close>

datatype 'a cref = Outside 'a | Slot nat

definition read_ref :: "array_id \<Rightarrow> 'a list \<Rightarrow> 'a cref \<Rightarrow> 'a option" where
  "read_ref cur a r =
     (case r of
        Outside v \<Rightarrow> Some v
      | Slot i \<Rightarrow> if cur = Held \<and> i < length a then Some (a ! i) else None)"

subsection \<open>Constructors\<close>

text \<open>\<^verbatim>\<open>ArrayList(size_type count = 0)\<close>\<close>

definition ArrayList_count :: "nat \<Rightarrow> 'a::default ArrayList" where
  "ArrayList_count count = \<lparr>m_capacity = count, m_size = count, m_data = new_array count\<rparr>"

text \<open>\<^verbatim>\<open>ArrayList(const ArrayList& other)\<close>: delegates to the count constructor, then copies.\<close>

definition ArrayList_copy :: "'a::default ArrayList \<Rightarrow> 'a ArrayList" where
  "ArrayList_copy other =
     (let al = ArrayList_count (m_size other)
      in al\<lparr>m_data := std_copy (m_data other) 0 (m_size other) (m_data al) 0\<rparr>)"

text \<open>
  \<^verbatim>\<open>ArrayList(const std::initializer_list<value_type>& source)\<close>. The source text of its
  body reads \<^verbatim>\<open>std::(source.begin(), source.end(), begin())\<close>; the name of the algorithm
  is taken to be \<^verbatim>\<open>copy\<close>, as in the copy constructor above it.
\<close>

definition ArrayList_init :: "'a::default list \<Rightarrow> 'a ArrayList" where
  "ArrayList_init source =
     (let al = ArrayList_count (length source)
      in al\<lparr>m_data := std_copy source 0 (length source) (m_data al) 0\<rparr>)"

text \<open>
  \<^verbatim>\<open>ArrayList(ArrayList&& other)\<close>: the new container and what is left of \<open>other\<close>.
\<close>

definition ArrayList_move :: "'a ArrayList \<Rightarrow> 'a ArrayList \<times> 'a ArrayList" where
  "ArrayList_move other =
     (\<lparr>m_capacity = m_capacity other, m_size = m_size other, m_data = m_data other\<rparr>,
      other\<lparr>m_capacity := 0, m_size := 0, m_data := []\<rparr>)"

subsection \<open>Access\<close>

definition size_al :: "'a ArrayList \<Rightarrow> nat" where
  "size_al al = m_size al"

definition capacity :: "'a ArrayList \<Rightarrow> nat" where
  "capacity al = m_capacity al"

text \<open>\<^verbatim>\<open>operator[]\<close>: \<^verbatim>\<open>*(m_data + index)\<close>, unchecked.\<close>

definition subscript :: "'a ArrayList \<Rightarrow> nat \<Rightarrow> 'a" where
  "subscript al index = m_data al ! index"

definition at :: "'a ArrayList \<Rightarrow> nat \<Rightarrow> error + 'a" where
  "at al pos =
     (if pos > size_al al \<or> pos = size_al al then Inl OutOfRange
      else Inr (m_data al ! pos))"

text \<open>The elements in use, read through \<^verbatim>\<open>operator[]\<close> from index 0 to \<^verbatim>\<open>size() - 1\<close>.\<close>

definition elems :: "'a ArrayList \<Rightarrow> 'a list" where
  "elems al = map (subscript al) [0..<size_al al]"

definition clear :: "'a ArrayList \<Rightarrow> 'a ArrayList" where
  "clear al = al\<lparr>m_size := 0\<rparr>"

subsection \<open>Appending\<close>

text \<open>
  \<^verbatim>\<open>push_back\<close>: the growth block (taken when \<^verbatim>\<open>size() == capacity()\<close>), which
  ends by releasing the old array, then \<^verbatim>\<open>*(m_data + m_size++) = value\<close>, which reads
  the value through the reference.
\<close>

definition push_back :: "'a::default ArrayList \<Rightarrow> 'a cref \<Rightarrow> error + 'a ArrayList" where
  "push_back al val =
     (let (al1, cur) =
        (if size_al al = capacity al then
           let cap = (if capacity al = 0 then 1 else m_capacity al * 2);
               temp = std_copy (m_data al) 0 (m_size al) (new_array cap) 0
           in (al\<lparr>m_capacity := cap, m_data := temp\<rparr>, Temp)
         else (al, Held))
      in case read_ref cur (m_data al1) val of
           None \<Rightarrow> Inl UndefinedBehaviour
         | Some v \<Rightarrow>
             Inr (al1\<lparr>m_data := (m_data al1)[m_size al1 := v], m_size := m_size al1 + 1\<rparr>))"

text \<open>A sequence of \<^verbatim>\<open>push_back\<close> calls on one container, one reference per call.\<close>

fun push_back_all :: "'a::default ArrayList \<Rightarrow> 'a cref list \<Rightarrow> error + 'a ArrayList" where
  "push_back_all al [] = Inr al"
| "push_back_all al (r # rs) =
     (case push_back al r of Inl e \<Rightarrow> Inl e | Inr al' \<Rightarrow> push_back_all al' rs)"

subsection \<open>Insertion\<close>

text \<open>
  The growth block of \<^verbatim>\<open>insert\<close> (the body of \<^verbatim>\<open>if (size() == capacity())\<close>): the
  container it leaves and the offset at which \<^verbatim>\<open>pos\<close> is reacquired in \<^verbatim>\<open>temp\<close>.
\<close>

definition insert_grow :: "'a::default ArrayList \<Rightarrow> int \<Rightarrow> 'a ArrayList \<times> int" where
  "insert_grow al pos =
     (let offset = pos;
          new_capacity = (if capacity al = 0 then 1 else capacity al * 2);
          temp = std_copy (m_data al) 0 (m_size al) (new_array new_capacity) 0
      in (al\<lparr>m_data := temp, m_capacity := new_capacity\<rparr>, offset))"

text \<open>
  \<^verbatim>\<open>std::copy_backward(pos, z, ++z)\<close> names \<open>z\<close> in two arguments and increments it
  in one of them. C++ does not fix the order in which the arguments of a call are
  evaluated, so the order is a parameter: from left to right the second argument is the
  old \<open>z\<close>, from right to left it is the incremented one.
\<close>

datatype arg_order = LeftToRight | RightToLeft

text \<open>
  \<^verbatim>\<open>insert\<close>. The iterator \<open>z\<close> is taken from \<^verbatim>\<open>end()\<close> on entry and never
  reacquired: after the growth block it still points into the array that the block has
  released, while \<open>pos\<close> points into \<^verbatim>\<open>temp\<close>. The value is read through its
  reference in \<^verbatim>\<open>*pos = value\<close>, after the elements have been shifted.
\<close>

definition insert_al :: "arg_order \<Rightarrow> 'a::default ArrayList \<Rightarrow> int \<Rightarrow> 'a cref \<Rightarrow> error + ('a ArrayList \<times> int)" where
  "insert_al ord al pos val =
     (let z = Ptr Held (int (m_size al)) in
      if pos < 0 then Inl OutOfRange
      else if pos > int (m_size al) then Inl OutOfRange
      else
        let (al1, cur, pos1) =
              (if size_al al = capacity al then
                 let (al', offset) = insert_grow al pos in (al', Temp, Ptr Temp offset)
               else (al, Held, Ptr Held pos));
            (last', d_last) =
              (case ord of LeftToRight \<Rightarrow> (z, incr z) | RightToLeft \<Rightarrow> (incr z, incr z))
        in case copy_backward_it cur (m_data al1) pos1 last' d_last of
             None \<Rightarrow> Inl UndefinedBehaviour
           | Some d \<Rightarrow>
               (case read_ref cur d val of
                  None \<Rightarrow> Inl UndefinedBehaviour
                | Some v \<Rightarrow>
                    Inr (al1\<lparr>m_data := d[nat (off pos1) := v], m_size := m_size al1 + 1\<rparr>,
                         off pos1)))"

subsection \<open>Removal\<close>

text \<open>
  \<^verbatim>\<open>erase\<close>. Both checks pass for \<^verbatim>\<open>pos == end()\<close> of a container that is not empty.
  \<^verbatim>\<open>--m_size\<close> is reached with \<open>0 < pos \<le> m_size\<close> only, so it does not wrap.
\<close>

definition erase :: "'a ArrayList \<Rightarrow> int \<Rightarrow> error + ('a ArrayList \<times> int)" where
  "erase al pos =
     (if pos < 0 \<or> pos = 0 then Inl OutOfRange
      else if pos > int (m_size al) then Inl OutOfRange
      else
        case copy_it Held (m_data al) (Ptr Held (pos + 1)) (Ptr Held (int (m_size al)))
               (Ptr Held pos) of
          None \<Rightarrow> Inl UndefinedBehaviour
        | Some d \<Rightarrow> Inr (al\<lparr>m_data := d, m_size := m_size al - 1\<rparr>, pos))"

subsection \<open>Resizing, swapping, assignment\<close>

definition resize :: "'a::default ArrayList \<Rightarrow> nat \<Rightarrow> 'a ArrayList" where
  "resize al count =
     (if size_al al \<noteq> count then
        let temp = new_array count;
            limit = (if count < size_al al then count else m_size al);
            temp' = std_copy (m_data al) 0 limit temp 0
        in al\<lparr>m_data := temp', m_capacity := count, m_size := count\<rparr>
      else al)"

text \<open>\<^verbatim>\<open>swap\<close>: this container and \<open>other\<close> after the call.\<close>

definition swap_al :: "'a ArrayList \<Rightarrow> 'a ArrayList \<Rightarrow> 'a ArrayList \<times> 'a ArrayList" where
  "swap_al al other =
     (al\<lparr>m_capacity := m_capacity other, m_size := m_size other, m_data := m_data other\<rparr>,
      other\<lparr>m_capacity := m_capacity al, m_size := m_size al, m_data := m_data al\<rparr>)"

text \<open>
  The assignments test \<^verbatim>\<open>this != &rhs\<close>, the identity of two objects, which their
  values do not show: \<open>same\<close> says whether the argument is the container itself.
\<close>

definition copy_assign :: "bool \<Rightarrow> 'a::default ArrayList \<Rightarrow> 'a ArrayList \<Rightarrow> 'a ArrayList" where
  "copy_assign same al rhs =
     (if \<not> same then
        let al1 =
          (if capacity al \<noteq> capacity rhs then
             al\<lparr>m_size := 0, m_data := new_array (capacity rhs), m_capacity := capacity rhs\<rparr>
           else al)
        in al1\<lparr>m_data := std_copy (m_data rhs) 0 (m_size rhs) (m_data al1) 0,
               m_size := size_al rhs\<rparr>
      else al)"

text \<open>Move assignment: this container and \<open>other\<close> after the call.\<close>

definition move_assign :: "bool \<Rightarrow> 'a ArrayList \<Rightarrow> 'a ArrayList \<Rightarrow> 'a ArrayList \<times> 'a ArrayList" where
  "move_assign same al other =
     (if \<not> same then
        (al\<lparr>m_capacity := m_capacity other, m_size := m_size other, m_data := m_data other\<rparr>,
         other\<lparr>m_capacity := 0, m_size := 0, m_data := []\<rparr>)
      else (al, other))"

subsection \<open>Concatenation and comparison\<close>

text \<open>\<^verbatim>\<open>operator+=\<close>; \<open>junk\<close> is what the slots of \<^verbatim>\<open>new value_type[reqd_size]\<close> hold.\<close>

definition plus_assign :: "(nat \<Rightarrow> 'a) \<Rightarrow> 'a ArrayList \<Rightarrow> 'a ArrayList \<Rightarrow> 'a ArrayList" where
  "plus_assign junk al other =
     (let reqd_size = size_al al + size_al other;
          al1 =
            (if capacity al < reqd_size then
               let temp = std_copy (m_data al) 0 (m_size al) (new_array_uninit junk reqd_size) 0
               in al\<lparr>m_data := temp, m_capacity := reqd_size\<rparr>
             else al)
      in al1\<lparr>m_data := std_copy (m_data other) 0 (m_size other) (m_data al1) (size_al al1),
             m_size := m_size al1 + m_size other\<rparr>)"

text \<open>
  \<^verbatim>\<open>operator+\<close>: \<^verbatim>\<open>return ArrayList<T>(lhs) += rhs;\<close> A temporary is copy-constructed
  from \<open>lhs\<close>; \<^verbatim>\<open>operator+=\<close> appends \<open>rhs\<close> to the temporary and returns a
  reference to it; the returned container is copy-constructed from that reference. The
  model gives the returned container, \<open>lhs\<close> after the call and \<open>rhs\<close> after the
  call. The copy constructor and \<^verbatim>\<open>operator+=\<close> only read the container they take by
  reference to const, and the one container that \<^verbatim>\<open>operator+=\<close> writes is the temporary.
\<close>

definition operator_plus :: "(nat \<Rightarrow> 'a) \<Rightarrow> 'a::default ArrayList \<Rightarrow> 'a ArrayList \<Rightarrow> 'a ArrayList \<times> 'a ArrayList \<times> 'a ArrayList" where
  "operator_plus junk lhs rhs =
     (let temp = ArrayList_copy lhs;
          temp' = plus_assign junk temp rhs
      in (ArrayList_copy temp', lhs, rhs))"

text \<open>\<^verbatim>\<open>operator==\<close>: \<^verbatim>\<open>std::equal(lhs.begin(), lhs.end(), rhs.begin(), rhs.end())\<close>\<close>

definition operator_eq :: "'a ArrayList \<Rightarrow> 'a ArrayList \<Rightarrow> bool" where
  "operator_eq lhs rhs = std_equal (m_data lhs) 0 (m_size lhs) (m_data rhs) 0 (m_size rhs)"

subsection \<open>Well-formed and reachable containers\<close>

text \<open>
  The array of a container has \<^verbatim>\<open>m_capacity\<close> slots, of which \<^verbatim>\<open>m_size\<close> are in use.
\<close>

definition well_formed :: "'a ArrayList \<Rightarrow> bool" where
  "well_formed al = (m_size al \<le> m_capacity al \<and> length (m_data al) = m_capacity al)"

text \<open>
  The containers a program can hold: what the constructors build, and what the public
  operations make of reachable containers when they return. A call that throws leaves the
  container as it was, and a call whose behaviour is undefined leaves no container to
  speak of: neither is a step.
\<close>

inductive reachable :: "'a::default ArrayList \<Rightarrow> bool" where
  r_count: "reachable (ArrayList_count count)"
| r_init: "reachable (ArrayList_init source)"
| r_copy: "reachable other \<Longrightarrow> reachable (ArrayList_copy other)"
| r_move_new: "reachable other \<Longrightarrow> reachable (fst (ArrayList_move other))"
| r_move_old: "reachable other \<Longrightarrow> reachable (snd (ArrayList_move other))"
| r_push_back: "reachable al \<Longrightarrow> push_back al val = Inr al' \<Longrightarrow> reachable al'"
| r_insert: "reachable al \<Longrightarrow> insert_al ord al pos val = Inr (al', p) \<Longrightarrow> reachable al'"
| r_erase: "reachable al \<Longrightarrow> erase al pos = Inr (al', p) \<Longrightarrow> reachable al'"
| r_resize: "reachable al \<Longrightarrow> reachable (resize al count)"
| r_clear: "reachable al \<Longrightarrow> reachable (clear al)"
| r_swap_this: "reachable al \<Longrightarrow> reachable other \<Longrightarrow> reachable (fst (swap_al al other))"
| r_swap_other: "reachable al \<Longrightarrow> reachable other \<Longrightarrow> reachable (snd (swap_al al other))"
| r_copy_assign: "reachable al \<Longrightarrow> reachable rhs \<Longrightarrow> reachable (copy_assign same al rhs)"
| r_move_assign_this:
    "reachable al \<Longrightarrow> reachable other \<Longrightarrow> reachable (fst (move_assign same al other))"
| r_move_assign_other:
    "reachable al \<Longrightarrow> reachable other \<Longrightarrow> reachable (snd (move_assign same al other))"
| r_plus_assign: "reachable al \<Longrightarrow> reachable other \<Longrightarrow> reachable (plus_assign junk al other)"
| r_plus: "reachable lhs \<Longrightarrow> reachable rhs \<Longrightarrow> reachable (fst (operator_plus junk lhs rhs))"

section \<open>The copy loops\<close>

text \<open>
  Each loop is characterised slot by slot: the result has the length of the destination,
  and slot \<open>i\<close> holds the source slot that the loop moved there, or its old contents.
\<close>

lemma length_std_copy [simp]: "length (std_copy src first last' dst d) = length dst"
  by (induction src first last' dst d rule: std_copy.induct) (simp add: std_copy.simps)

lemma nth_std_copy:
  "i < length dst \<Longrightarrow>
   std_copy src first last' dst d ! i =
     (if d \<le> i \<and> first + (i - d) < last' then src ! (first + (i - d)) else dst ! i)"
proof (induction src first last' dst d rule: std_copy.induct)
  case (1 src first last' dst d)
  show ?case
  proof (cases "first < last'")
    case True
    let ?dst' = "dst[d := src ! first]"
    have step: "std_copy src first last' dst d = std_copy src (Suc first) last' ?dst' (Suc d)"
      using True by (subst std_copy.simps) simp
    have ih: "std_copy src (Suc first) last' ?dst' (Suc d) ! i =
        (if Suc d \<le> i \<and> Suc first + (i - Suc d) < last'
         then src ! (Suc first + (i - Suc d)) else ?dst' ! i)"
      using 1 True by simp
    consider "i < d" | "i = d" | "d < i" by linarith
    then show ?thesis
    proof cases
      case 1
      then show ?thesis using step ih \<open>i < length dst\<close> by simp
    next
      case 2
      then show ?thesis using step ih \<open>i < length dst\<close> True by simp
    next
      case 3
      then have e: "Suc first + (i - Suc d) = first + (i - d)" by arith
      show ?thesis using 3 ih unfolding step e by simp
    qed
  next
    case False
    then show ?thesis by (subst std_copy.simps) simp
  qed
qed

lemma length_copy_within [simp]: "length (copy_within a first last' d) = length a"
  by (induction a first last' d rule: copy_within.induct) (simp add: copy_within.simps)

lemma nth_copy_within:
  "d \<le> first \<Longrightarrow> i < length a \<Longrightarrow>
   copy_within a first last' d ! i =
     (if d \<le> i \<and> first + (i - d) < last' then a ! (first + (i - d)) else a ! i)"
proof (induction a first last' d rule: copy_within.induct)
  case (1 a first last' d)
  show ?case
  proof (cases "first < last'")
    case True
    let ?a' = "a[d := a ! first]"
    have step: "copy_within a first last' d = copy_within ?a' (Suc first) last' (Suc d)"
      using True by (subst copy_within.simps) simp
    have ih: "copy_within ?a' (Suc first) last' (Suc d) ! i =
        (if Suc d \<le> i \<and> Suc first + (i - Suc d) < last'
         then ?a' ! (Suc first + (i - Suc d)) else ?a' ! i)"
      using 1 True by simp
    consider "i < d" | "i = d" | "d < i" by linarith
    then show ?thesis
    proof cases
      case 1
      then show ?thesis using step ih \<open>i < length a\<close> by simp
    next
      case 2
      then show ?thesis using step ih \<open>i < length a\<close> True by simp
    next
      case 3
      then have e: "Suc first + (i - Suc d) = first + (i - d)" by arith
      have ne: "first + (i - d) \<noteq> d" using 3 \<open>d \<le> first\<close> by arith
      show ?thesis using 3 ih ne unfolding step e by simp
    qed
  next
    case False
    then show ?thesis by (subst copy_within.simps) simp
  qed
qed

lemma length_copy_backward_within [simp]:
  "length (copy_backward_within a first last' d) = length a"
  by (induction a first last' d rule: copy_backward_within.induct)
     (simp add: copy_backward_within.simps)

lemma nth_copy_backward_within:
  "last' \<le> d_last \<Longrightarrow> d_last \<le> length a \<Longrightarrow> i < length a \<Longrightarrow>
   copy_backward_within a first last' d_last ! i =
     (if first + (d_last - last') \<le> i \<and> i < d_last then a ! (i - (d_last - last')) else a ! i)"
proof (induction a first last' d_last rule: copy_backward_within.induct)
  case (1 a first last' d_last)
  show ?case
  proof (cases "first < last'")
    case True
    let ?a' = "a[d_last - 1 := a ! (last' - 1)]"
    have step: "copy_backward_within a first last' d_last =
        copy_backward_within ?a' first (last' - 1) (d_last - 1)"
      using True by (subst copy_backward_within.simps) simp
    have k: "d_last - 1 - (last' - 1) = d_last - last'"
      using True \<open>last' \<le> d_last\<close> by arith
    have ih: "copy_backward_within ?a' first (last' - 1) (d_last - 1) ! i =
        (if first + (d_last - last') \<le> i \<and> i < d_last - 1
         then ?a' ! (i - (d_last - last')) else ?a' ! i)"
      using "1.IH" [OF True] "1.prems" True k by simp
    consider "i < d_last - 1" | "i = d_last - 1" | "d_last \<le> i" by linarith
    then show ?thesis
    proof cases
      case 1
      then have "i - (d_last - last') \<noteq> d_last - 1" by arith
      then show ?thesis using 1 ih unfolding step by simp
    next
      case 2
      have "first + (d_last - last') \<le> i" using 2 True \<open>last' \<le> d_last\<close> by arith
      moreover have "i < d_last" using 2 True \<open>last' \<le> d_last\<close> by arith
      moreover have "i - (d_last - last') = last' - 1"
        using 2 True \<open>last' \<le> d_last\<close> by arith
      ultimately show ?thesis using 2 ih \<open>i < length a\<close> unfolding step by simp
    next
      case 3
      have "\<not> i < d_last - 1" using 3 by arith
      moreover have "i \<noteq> d_last - 1" using 3 True \<open>last' \<le> d_last\<close> by arith
      ultimately show ?thesis using 3 ih unfolding step by simp
    qed
  next
    case False
    have "\<not> (first + (d_last - last') \<le> i \<and> i < d_last)"
      using False \<open>last' \<le> d_last\<close> by arith
    then show ?thesis using False by (subst copy_backward_within.simps) auto
  qed
qed

lemma std_equal_iff:
  "std_equal a i n b j m \<longleftrightarrow> n = m \<and> (\<forall>k<n. a ! (i + k) = b ! (j + k))"
proof (induction a i n b j m rule: std_equal.induct)
  case (4 a i n b j m)
  then show ?case by (auto simp: less_Suc_eq_0_disj)
qed auto

section \<open>Basic facts about containers\<close>

lemma length_elems [simp]: "length (elems al) = m_size al"
  by (simp add: elems_def size_al_def)

lemma nth_elems [simp]: "i < m_size al \<Longrightarrow> elems al ! i = m_data al ! i"
  by (simp add: elems_def size_al_def subscript_def)

lemma elems_take: "well_formed al \<Longrightarrow> elems al = take (m_size al) (m_data al)"
  by (rule nth_equalityI) (simp_all add: well_formed_def)

lemma length_new_array [simp]: "length (new_array n) = n"
  by (simp add: new_array_def)

lemma nth_new_array [simp]: "i < n \<Longrightarrow> new_array n ! i = default"
  by (simp add: new_array_def)

lemma length_new_array_uninit [simp]: "length (new_array_uninit junk n) = n"
  by (simp add: new_array_uninit_def)

lemma at_elems: "i < m_size al \<Longrightarrow> at al i = Inr (elems al ! i)"
  by (simp add: at_def size_al_def)

text \<open>
  Every theorem about the elements of a container assumes it well-formed: then all slots
  that the operations read or write lie inside its array. Every reachable container is
  well-formed (\<open>reachable_well_formed\<close> below).
\<close>

section \<open>Constructors\<close>

lemma well_formed_count: "well_formed (ArrayList_count count)"
  by (simp add: well_formed_def ArrayList_count_def)

lemma well_formed_init: "well_formed (ArrayList_init source)"
  by (simp add: well_formed_def ArrayList_init_def ArrayList_count_def Let_def)

lemma size_init [simp]: "m_size (ArrayList_init source) = length source"
  by (simp add: ArrayList_init_def ArrayList_count_def Let_def)

lemma capacity_init [simp]: "m_capacity (ArrayList_init source) = length source"
  by (simp add: ArrayList_init_def ArrayList_count_def Let_def)

lemma elems_init: "elems (ArrayList_init source) = source"
proof (rule nth_equalityI)
  show "length (elems (ArrayList_init source)) = length source"
    by (simp add: ArrayList_init_def ArrayList_count_def Let_def)
next
  fix i assume "i < length (elems (ArrayList_init source))"
  then have i: "i < length source" "i < m_size (ArrayList_init source)"
    by (simp_all add: ArrayList_init_def ArrayList_count_def Let_def)
  then have "m_data (ArrayList_init source) ! i = source ! i"
    by (simp add: ArrayList_init_def ArrayList_count_def Let_def nth_std_copy)
  with i show "elems (ArrayList_init source) ! i = source ! i" by simp
qed

lemma subscript_init: "i < length source \<Longrightarrow> subscript (ArrayList_init source) i = source ! i"
  using nth_elems [of i "ArrayList_init source"] by (simp add: elems_init subscript_def)

lemma well_formed_copy: "well_formed (ArrayList_copy x)"
  by (simp add: well_formed_def ArrayList_copy_def ArrayList_count_def Let_def)

lemma size_copy [simp]: "m_size (ArrayList_copy x) = m_size x"
  by (simp add: ArrayList_copy_def ArrayList_count_def Let_def)

lemma elems_copy: "elems (ArrayList_copy x) = elems x"
proof (rule nth_equalityI)
  show "length (elems (ArrayList_copy x)) = length (elems x)" by simp
next
  fix i assume "i < length (elems (ArrayList_copy x))"
  then have i: "i < m_size x" by simp
  then have "m_data (ArrayList_copy x) ! i = m_data x ! i"
    by (simp add: ArrayList_copy_def ArrayList_count_def Let_def nth_std_copy)
  with i show "elems (ArrayList_copy x) ! i = elems x ! i" by simp
qed

lemma well_formed_move:
  "well_formed other \<Longrightarrow>
   well_formed (fst (ArrayList_move other)) \<and> well_formed (snd (ArrayList_move other))"
  by (simp add: well_formed_def ArrayList_move_def)

lemma elems_move: "elems (fst (ArrayList_move x)) = elems x"
  by (simp add: elems_def subscript_def size_al_def ArrayList_move_def)

section \<open>Appending\<close>

text \<open>
  What \<^verbatim>\<open>push_back\<close> does, case by case. A value from outside the array is appended,
  whether the array grows or not. A reference to a slot of the container's own array is
  read after the growth block: with spare capacity the slot is still there and its value
  is appended; in a full container the array it points into has been deleted.
\<close>

lemma push_back_Outside:
  assumes "well_formed al"
  shows "\<exists>al'. push_back al (Outside v) = Inr al' \<and> well_formed al'
    \<and> m_size al' = m_size al + 1 \<and> elems al' = elems al @ [v]
    \<and> m_capacity al' =
        (if m_size al = m_capacity al then (if m_capacity al = 0 then 1 else m_capacity al * 2)
         else m_capacity al)"
proof -
  define cap where "cap = (if m_capacity al = 0 then 1 else m_capacity al * 2)"
  define al1 where "al1 =
    (if m_size al = m_capacity al
     then al\<lparr>m_capacity := cap, m_data := std_copy (m_data al) 0 (m_size al) (new_array cap) 0\<rparr>
     else al)"
  define al' where "al' = al1\<lparr>m_data := (m_data al1)[m_size al1 := v], m_size := m_size al1 + 1\<rparr>"
  from assms have wf: "m_size al \<le> m_capacity al" "length (m_data al) = m_capacity al"
    by (simp_all add: well_formed_def)
  have pb: "push_back al (Outside v) = Inr al'"
    by (simp add: push_back_def read_ref_def Let_def size_al_def capacity_def
        al'_def al1_def cap_def)
  have sz: "m_size al' = m_size al + 1" by (simp add: al'_def al1_def)
  have cp: "m_capacity al' = (if m_size al = m_capacity al then cap else m_capacity al)"
    by (simp add: al'_def al1_def)
  have wf': "well_formed al'"
    using wf by (auto simp: well_formed_def al'_def al1_def cap_def)
  have el: "elems al' = elems al @ [v]"
  proof (rule nth_equalityI)
    show "length (elems al') = length (elems al @ [v])" using sz by simp
  next
    fix i assume "i < length (elems al')"
    then have i: "i \<le> m_size al" using sz by simp
    have "m_data al' ! i = (if i = m_size al then v else m_data al ! i)"
      using i wf by (auto simp: al'_def al1_def cap_def nth_std_copy nth_list_update)
    then show "elems al' ! i = (elems al @ [v]) ! i"
      using i sz by (auto simp: nth_append)
  qed
  show ?thesis using pb wf' sz el cp by (simp add: cap_def)
qed

lemma push_back_Slot_spare:
  assumes "well_formed al" and "size_al al < capacity al" and "i < m_capacity al"
  shows "\<exists>al'. push_back al (Slot i) = Inr al' \<and> well_formed al'
    \<and> m_size al' = m_size al + 1 \<and> m_capacity al' = m_capacity al
    \<and> elems al' = elems al @ [m_data al ! i]"
proof -
  define al' where "al' = al\<lparr>m_data := (m_data al)[m_size al := m_data al ! i], m_size := m_size al + 1\<rparr>"
  from assms have wf: "m_size al < m_capacity al" "length (m_data al) = m_capacity al"
    by (simp_all add: well_formed_def size_al_def capacity_def)
  have pb: "push_back al (Slot i) = Inr al'"
    using wf assms(3)
    by (simp add: push_back_def read_ref_def Let_def size_al_def capacity_def al'_def)
  have wf': "well_formed al'" using wf by (simp add: well_formed_def al'_def)
  have el: "elems al' = elems al @ [m_data al ! i]"
  proof (rule nth_equalityI)
    show "length (elems al') = length (elems al @ [m_data al ! i])" by (simp add: al'_def)
  next
    fix k assume "k < length (elems al')"
    then have k: "k \<le> m_size al" by (simp add: al'_def)
    then have "m_data al' ! k = (if k = m_size al then m_data al ! i else m_data al ! k)"
      using wf by (simp add: al'_def nth_list_update)
    moreover have "k < m_size al'" using k by (simp add: al'_def)
    ultimately show "elems al' ! k = (elems al @ [m_data al ! i]) ! k"
      using k by (auto simp: nth_append)
  qed
  show ?thesis using pb wf' el by (simp add: al'_def)
qed

lemma push_back_Slot_full:
  "size_al al = capacity al \<Longrightarrow> push_back al (Slot i) = Inl UndefinedBehaviour"
  by (simp add: push_back_def read_ref_def Let_def)

lemma well_formed_push_back:
  assumes "well_formed al" and "push_back al val = Inr al'"
  shows "well_formed al'"
  using assms
  by (auto simp: push_back_def Let_def well_formed_def size_al_def capacity_def
      split: if_splits option.splits)

lemma push_back_all_Outside:
  "well_formed al \<Longrightarrow>
   \<exists>al'. push_back_all al (map Outside vs) = Inr al' \<and> well_formed al'
     \<and> elems al' = elems al @ vs"
proof (induction vs arbitrary: al)
  case Nil
  then show ?case by simp
next
  case (Cons v vs)
  from push_back_Outside [OF Cons.prems, of v]
  obtain al1 where 1: "push_back al (Outside v) = Inr al1" "well_formed al1"
    "elems al1 = elems al @ [v]" by blast
  from Cons.IH [OF 1(2)]
  obtain al' where 2: "push_back_all al1 (map Outside vs) = Inr al'" "well_formed al'"
    "elems al' = elems al1 @ vs" by blast
  show ?case using 1 2 by simp
qed

text \<open>
  Appending values that are not elements of the container itself: starting from an empty
  container (a well-formed one of size 0, such as the default-constructed container), the
  calls all return, and they leave a container whose size is the number of calls, whose
  capacity is at least its size, and in which \<^verbatim>\<open>at(i)\<close> returns the \<open>i\<close>-th appended
  value for every index below the size.
\<close>

lemma push_back_sequence:
  assumes "well_formed al" and "size_al al = 0"
  shows "\<exists>r. push_back_all al (map Outside vs) = Inr r
    \<and> size_al r = length vs \<and> size_al r \<le> capacity r
    \<and> map (at r) [0..<length vs] = map Inr vs"
proof -
  from assms(2) have "elems al = []" by (simp add: elems_def)
  with push_back_all_Outside [OF assms(1), of vs]
  obtain r where r: "push_back_all al (map Outside vs) = Inr r"
    and wf: "well_formed r" and el: "elems r = vs" by auto
  from el have sz: "m_size r = length vs" by (metis length_elems)
  have "map (at r) [0..<length vs] = map Inr vs"
  proof (rule nth_equalityI)
    show "length (map (at r) [0..<length vs]) = length (map Inr vs)" by simp
  next
    fix i assume "i < length (map (at r) [0..<length vs])"
    then have "i < length vs" by simp
    then show "map (at r) [0..<length vs] ! i = map Inr vs ! i"
      using at_elems [of i r] sz el by simp
  qed
  with r wf sz show ?thesis by (auto simp: well_formed_def size_al_def capacity_def)
qed

text \<open>
  Claim C2 says that after every sequence of N \<^verbatim>\<open>push_back\<close> calls on an empty
  container the size is N and the elements read back are the appended values in order.
  \<^verbatim>\<open>push_back(7)\<close> on the default-constructed container leaves a full container of
  size and capacity 1. \<^verbatim>\<open>push_back(a[0])\<close> on it is the second call of such a
  sequence: its growth block deletes the array that the reference points into, and the
  value is read after that, so the call has no defined result and the container does not
  read back 7, 7.
\<close>

theorem push_back_alias_example:
  "push_back (ArrayList_count 0) (Outside 7)
     = Inr \<lparr>m_capacity = 1, m_size = 1, m_data = [7 :: int]\<rparr>
   \<and> push_back \<lparr>m_capacity = 1, m_size = 1, m_data = [7 :: int]\<rparr> (Slot 0)
     = Inl UndefinedBehaviour
   \<and> push_back_all (ArrayList_count 0) [Outside (7 :: int), Slot 0] = Inl UndefinedBehaviour"
  by code_simp

section \<open>Growth\<close>

text \<open>
  When \<^verbatim>\<open>push_back\<close> of a value from outside the array finds
  \<^verbatim>\<open>size() == capacity() == c\<close>, the container it leaves has capacity \<open>2c\<close> if
  \<open>c > 0\<close> and capacity 1 if \<open>c = 0\<close>, and its first \<open>c\<close> elements are the old
  elements in order. The growth block of \<^verbatim>\<open>insert\<close>, taken alone, leaves the same
  capacities, the same size and the same elements in order.
\<close>

lemma growth_doubling:
  assumes "well_formed al" and "size_al al = capacity al"
  shows "(\<exists>al'. push_back al (Outside v) = Inr al'
      \<and> (0 < capacity al \<longrightarrow> capacity al' = 2 * capacity al)
      \<and> (capacity al = 0 \<longrightarrow> capacity al' = 1)
      \<and> take (size_al al) (elems al') = elems al)
    \<and> (0 < capacity al \<longrightarrow> capacity (fst (insert_grow al pos)) = 2 * capacity al)
    \<and> (capacity al = 0 \<longrightarrow> capacity (fst (insert_grow al pos)) = 1)
    \<and> size_al (fst (insert_grow al pos)) = size_al al
    \<and> elems (fst (insert_grow al pos)) = elems al"
proof -
  from assms have wf: "m_size al = m_capacity al" "length (m_data al) = m_capacity al"
    by (simp_all add: well_formed_def size_al_def capacity_def)
  from push_back_Outside [OF assms(1), of v]
  obtain al' where pb: "push_back al (Outside v) = Inr al'"
    and el: "elems al' = elems al @ [v]"
    and cp: "m_capacity al' =
      (if m_size al = m_capacity al then (if m_capacity al = 0 then 1 else m_capacity al * 2)
       else m_capacity al)" by blast
  have 1: "capacity al' = (if capacity al = 0 then 1 else 2 * capacity al)"
    using cp wf by (simp add: capacity_def)
  have 2: "take (size_al al) (elems al') = elems al"
    using el by (simp add: size_al_def)
  have 3: "capacity (fst (insert_grow al pos)) = (if capacity al = 0 then 1 else 2 * capacity al)"
    by (simp add: insert_grow_def capacity_def Let_def)
  have 4: "size_al (fst (insert_grow al pos)) = size_al al"
    by (simp add: insert_grow_def size_al_def Let_def)
  have 5: "elems (fst (insert_grow al pos)) = elems al"
  proof (rule nth_equalityI)
    show "length (elems (fst (insert_grow al pos))) = length (elems al)"
      using 4 by (simp add: size_al_def)
  next
    fix i assume "i < length (elems (fst (insert_grow al pos)))"
    then have i: "i < m_size al" using 4 by (simp add: size_al_def)
    then have "m_data (fst (insert_grow al pos)) ! i = m_data al ! i"
      using wf by (simp add: insert_grow_def capacity_def Let_def nth_std_copy)
    then show "elems (fst (insert_grow al pos)) ! i = elems al ! i"
      using i 4 by (simp add: size_al_def)
  qed
  have "\<exists>al'. push_back al (Outside v) = Inr al'
      \<and> (0 < capacity al \<longrightarrow> capacity al' = 2 * capacity al)
      \<and> (capacity al = 0 \<longrightarrow> capacity al' = 1)
      \<and> take (size_al al) (elems al') = elems al"
    using pb 1 2 by auto
  then show ?thesis using 3 4 5 by simp
qed

text \<open>
  Claim C3 says that whenever \<^verbatim>\<open>push_back\<close> or \<^verbatim>\<open>insert\<close> triggers growth at
  \<^verbatim>\<open>size() == capacity() == c\<close>, the new capacity is \<open>2c\<close> (1 from capacity 0) and the
  existing elements are preserved in order. A call of \<^verbatim>\<open>insert\<close> that triggers growth
  does not leave such a container: after its growth block it shifts with the iterator
  \<open>z\<close> into the released array. \<^verbatim>\<open>insert(end(), 3)\<close> has no defined result on the
  full container that \<^verbatim>\<open>push_back(1)\<close> and \<^verbatim>\<open>push_back(2)\<close> build from the
  default-constructed one (\<open>c = 2\<close>), nor on the default-constructed container itself
  (\<open>c = 0\<close>), in either order of evaluation.
\<close>

theorem insert_growth_example:
  "push_back_all (ArrayList_count 0) [Outside 1, Outside 2]
     = Inr \<lparr>m_capacity = 2, m_size = 2, m_data = [1, 2 :: int]\<rparr>
   \<and> size_al \<lparr>m_capacity = 2, m_size = 2, m_data = [1, 2 :: int]\<rparr> = 2
   \<and> capacity \<lparr>m_capacity = 2, m_size = 2, m_data = [1, 2 :: int]\<rparr> = 2
   \<and> insert_al LeftToRight \<lparr>m_capacity = 2, m_size = 2, m_data = [1, 2 :: int]\<rparr> 2 (Outside 3)
       = Inl UndefinedBehaviour
   \<and> insert_al RightToLeft \<lparr>m_capacity = 2, m_size = 2, m_data = [1, 2 :: int]\<rparr> 2 (Outside 3)
       = Inl UndefinedBehaviour
   \<and> insert_al LeftToRight (ArrayList_count 0) 0 (Outside (3 :: int)) = Inl UndefinedBehaviour
   \<and> insert_al RightToLeft (ArrayList_count 0) 0 (Outside (3 :: int)) = Inl UndefinedBehaviour"
  by code_simp

section \<open>Checked access\<close>

text \<open>
  Claim C4. \<^verbatim>\<open>at(pos)\<close> throws \<^verbatim>\<open>std::out_of_range\<close> exactly when
  \<open>pos \<ge> size()\<close>, for every container (the empty one and \<open>pos = size()\<close>
  included); for \<open>pos < size()\<close> it returns the element at index \<open>pos\<close>.
\<close>

theorem at_spec:
  "(at al pos = Inl OutOfRange \<longleftrightarrow> size_al al \<le> pos)
   \<and> (pos < size_al al \<longrightarrow> at al pos = Inr (subscript al pos))"
  by (auto simp: at_def subscript_def)

theorem at_spec_witness:
  "at (ArrayList_init [5, 6, 7 :: int]) 3 = Inl OutOfRange
   \<and> at (ArrayList_init [5, 6, 7 :: int]) 1 = Inr 6
   \<and> at (ArrayList_count 0 :: int ArrayList) 0 = Inl OutOfRange"
  using at_spec [of "ArrayList_init [5, 6, 7 :: int]" 3]
    at_spec [of "ArrayList_init [5, 6, 7 :: int]" 1]
    at_spec [of "ArrayList_count 0 :: int ArrayList" 0]
  by (simp add: size_al_def subscript_init ArrayList_count_def)

section \<open>Insertion\<close>

text \<open>
  What \<^verbatim>\<open>insert\<close> does, case by case. A position before \<^verbatim>\<open>begin()\<close> or after
  \<^verbatim>\<open>end()\<close> throws, and nothing else does. With spare capacity and the arguments of
  \<^verbatim>\<open>std::copy_backward\<close> evaluated from left to right, the value is inserted at the
  position. In a full container the growth block runs, and \<^verbatim>\<open>std::copy_backward\<close> is
  then called with \<open>pos\<close> in the new array and \<open>z\<close> in the released one. With the
  arguments evaluated from right to left, the range is copied onto itself. A value that is
  a slot of the container's own array is read after the shift, which may have moved
  another element into that slot.
\<close>

lemma insert_out_of_range:
  "insert_al ord al pos val = Inl OutOfRange \<longleftrightarrow> pos < 0 \<or> int (m_size al) < pos"
  by (auto simp: insert_al_def Let_def split: option.splits prod.splits)

lemma insert_spare:
  assumes "well_formed al" and "size_al al < capacity al"
    and "0 \<le> pos" and "pos \<le> int (m_size al)"
  shows "\<exists>al'. insert_al LeftToRight al pos (Outside v) = Inr (al', pos)
    \<and> size_al al' = size_al al + 1 \<and> capacity al' = capacity al
    \<and> elems al' = take (nat pos) (elems al) @ v # drop (nat pos) (elems al)"
proof -
  from assms(1) have wf: "m_size al \<le> m_capacity al" "length (m_data al) = m_capacity al"
    by (simp_all add: well_formed_def)
  from assms(2) have lt: "m_size al < m_capacity al" by (simp add: size_al_def capacity_def)
  let ?p = "nat pos"
  let ?d = "copy_backward_within (m_data al) ?p (m_size al) (Suc (m_size al))"
  let ?al' = "al\<lparr>m_data := ?d[?p := v], m_size := m_size al + 1\<rparr>"
  have p: "?p \<le> m_size al" using assms(3,4) by simp
  have n: "nat (int (m_size al) + 1) = Suc (m_size al)" by simp
  have ok: "copy_backward_it Held (m_data al) (Ptr Held pos) (Ptr Held (int (m_size al)))
      (incr (Ptr Held (int (m_size al)))) = Some ?d"
    using assms(3,4) wf lt n by (simp add: copy_backward_it_def incr_def)
  have ins: "insert_al LeftToRight al pos (Outside v) = Inr (?al', pos)"
    using assms(2,3,4) ok by (simp add: insert_al_def Let_def read_ref_def)
  have el: "elems ?al' = take ?p (elems al) @ v # drop ?p (elems al)"
  proof (rule nth_equalityI)
    show "length (elems ?al') = length (take ?p (elems al) @ v # drop ?p (elems al))"
      using p by simp
  next
    fix i assume "i < length (elems ?al')"
    then have i: "i \<le> m_size al" by simp
    then have il: "i < length (m_data al)" using wf lt by simp
    have sl: "Suc (m_size al) \<le> length (m_data al)" using wf lt by simp
    have "?d ! i = (if ?p < i then m_data al ! (i - 1) else m_data al ! i)"
      using i p by (simp add: nth_copy_backward_within [OF _ sl il])
    then have "?d[?p := v] ! i =
        (if i = ?p then v else if ?p < i then m_data al ! (i - 1) else m_data al ! i)"
      using il by (simp add: nth_list_update)
    moreover have "(take ?p (elems al) @ v # drop ?p (elems al)) ! i =
        (if i = ?p then v else if ?p < i then m_data al ! (i - 1) else m_data al ! i)"
    proof -
      consider "i < ?p" | "i = ?p" | "?p < i" by linarith
      then show ?thesis
      proof cases
        case 1
        then show ?thesis using p by (simp add: nth_append)
      next
        case 2
        then show ?thesis using p by (simp add: nth_append)
      next
        case 3
        then obtain k where k: "i - ?p = Suc k" by (metis Suc_diff_Suc)
        then have "?p + k = i - 1" by arith
        moreover have "?p + k < m_size al" using k i by arith
        ultimately show ?thesis using 3 p k by (simp add: nth_append)
      qed
    qed
    ultimately show "elems ?al' ! i = (take ?p (elems al) @ v # drop ?p (elems al)) ! i"
      using i by simp
  qed
  show ?thesis using ins el by (simp add: size_al_def capacity_def)
qed

lemma insert_full:
  assumes "0 \<le> pos" and "pos \<le> int (m_size al)" and "size_al al = capacity al"
  shows "insert_al ord al pos val = Inl UndefinedBehaviour"
  using assms
  by (simp add: insert_al_def Let_def copy_backward_it_def incr_def
      split: prod.splits arg_order.splits)

lemma insert_right_to_left:
  assumes "0 \<le> pos" and "pos \<le> int (m_size al)"
  shows "insert_al RightToLeft al pos val = Inl UndefinedBehaviour"
  using assms
  by (simp add: insert_al_def Let_def copy_backward_it_def incr_def split: prod.splits)

text \<open>
  With spare capacity, \<^verbatim>\<open>a.insert(a.begin(), a[2])\<close> on the elements 1, 2, 3 reads
  \<^verbatim>\<open>a[2]\<close> after the shift has put 2 there: it inserts 2, not 3.
\<close>

lemma insert_alias_example:
  "insert_al LeftToRight \<lparr>m_capacity = 4, m_size = 3, m_data = [1, 2, 3, 0 :: int]\<rparr> 0 (Slot 2)
     = Inr (\<lparr>m_capacity = 4, m_size = 4, m_data = [2, 1, 2, 3]\<rparr>, 0)"
  by code_simp

text \<open>
  Claim C5 says that \<^verbatim>\<open>insert(pos, value)\<close> at any position in
  \<^verbatim>\<open>[begin(), end()]\<close> yields the old sequence with the value inserted there and the
  size incremented. After \<^verbatim>\<open>push_back(1)\<close> and \<^verbatim>\<open>push_back(2)\<close> on the
  default-constructed container, the container is full (size and capacity 2):
  \<^verbatim>\<open>insert(begin(), 0)\<close> on it grows the array and then shifts with the stale
  \<open>z\<close>, so the call has no defined result, in either order of evaluation.
\<close>

theorem insert_full_example:
  "push_back_all (ArrayList_count 0) [Outside 1, Outside 2]
     = Inr \<lparr>m_capacity = 2, m_size = 2, m_data = [1, 2 :: int]\<rparr>
   \<and> elems \<lparr>m_capacity = 2, m_size = 2, m_data = [1, 2 :: int]\<rparr> = [1, 2]
   \<and> insert_al LeftToRight \<lparr>m_capacity = 2, m_size = 2, m_data = [1, 2 :: int]\<rparr> 0 (Outside 0)
       = Inl UndefinedBehaviour
   \<and> insert_al RightToLeft \<lparr>m_capacity = 2, m_size = 2, m_data = [1, 2 :: int]\<rparr> 0 (Outside 0)
       = Inl UndefinedBehaviour"
  by code_simp

section \<open>Removal\<close>

text \<open>
  What \<^verbatim>\<open>erase\<close> does, case by case. It throws exactly for a position at or before
  \<^verbatim>\<open>begin()\<close> or after \<^verbatim>\<open>end()\<close>. For a position after \<^verbatim>\<open>begin()\<close> and
  before \<^verbatim>\<open>end()\<close> it removes the element there, shifting the later ones one slot
  down. At \<^verbatim>\<open>end()\<close> of a container that is not empty it does not throw: it calls
  \<^verbatim>\<open>std::copy(pos + 1, end(), pos)\<close> with the first iterator after the last one.
\<close>

lemma erase_out_of_range:
  "erase al pos = Inl OutOfRange \<longleftrightarrow> pos \<le> 0 \<or> int (m_size al) < pos"
  by (auto simp: erase_def split: option.splits)

lemma erase_inside:
  assumes "well_formed al" and "0 < pos" and "pos < int (m_size al)"
  shows "\<exists>al'. erase al pos = Inr (al', pos)
    \<and> size_al al' = size_al al - 1 \<and> capacity al' = capacity al
    \<and> elems al' = take (nat pos) (elems al) @ drop (Suc (nat pos)) (elems al)"
proof -
  from assms(1) have wf: "m_size al \<le> m_capacity al" "length (m_data al) = m_capacity al"
    by (simp_all add: well_formed_def)
  let ?p = "nat pos"
  let ?d = "copy_within (m_data al) (Suc ?p) (m_size al) ?p"
  let ?al' = "al\<lparr>m_data := ?d, m_size := m_size al - 1\<rparr>"
  have p: "?p < m_size al" "0 < ?p" "nat (pos + 1) = Suc ?p" using assms(2,3) by simp_all
  have ok: "copy_it Held (m_data al) (Ptr Held (pos + 1)) (Ptr Held (int (m_size al)))
      (Ptr Held pos) = Some ?d"
    using assms(2,3) wf p(3) by (simp add: copy_it_def)
  have er: "erase al pos = Inr (?al', pos)"
    using assms(2,3) ok by (simp add: erase_def)
  have el: "elems ?al' = take ?p (elems al) @ drop (Suc ?p) (elems al)"
  proof (rule nth_equalityI)
    show "length (elems ?al') = length (take ?p (elems al) @ drop (Suc ?p) (elems al))"
      using p by simp
  next
    fix i assume "i < length (elems ?al')"
    then have i: "i < m_size al - 1" by simp
    then have il: "i < length (m_data al)" using wf by simp
    have "?d ! i = (if ?p \<le> i then m_data al ! Suc i else m_data al ! i)"
      using i p by (simp add: nth_copy_within [OF _ il]) arith
    then show "elems ?al' ! i = (take ?p (elems al) @ drop (Suc ?p) (elems al)) ! i"
      using i p by (auto simp: nth_append min_def)
  qed
  show ?thesis using er el by (simp add: size_al_def capacity_def)
qed

lemma erase_end:
  assumes "well_formed al" and "0 < m_size al"
  shows "erase al (int (m_size al)) = Inl UndefinedBehaviour"
  using assms by (simp add: erase_def copy_it_def)

text \<open>
  Claim C1 says that \<^verbatim>\<open>erase(pos)\<close> raises an out-of-range error for every position
  outside \<^verbatim>\<open>[begin() + 1, end())\<close>. On the container that \<^verbatim>\<open>push_back\<close> of 1, 2
  and 3 builds from the default-constructed one, \<^verbatim>\<open>erase(end())\<close> passes both checks:
  no error is raised, and the call has no defined result.
\<close>

theorem erase_at_end_example:
  "push_back_all (ArrayList_count 0) [Outside 1, Outside 2, Outside 3]
     = Inr \<lparr>m_capacity = 4, m_size = 3, m_data = [1, 2, 3, 0 :: int]\<rparr>
   \<and> elems \<lparr>m_capacity = 4, m_size = 3, m_data = [1, 2, 3, 0 :: int]\<rparr> = [1, 2, 3]
   \<and> erase \<lparr>m_capacity = 4, m_size = 3, m_data = [1, 2, 3, 0 :: int]\<rparr> 3
       = Inl UndefinedBehaviour"
  by code_simp

section \<open>Resizing\<close>

text \<open>
  Claim C6. For \<open>count \<noteq> size()\<close>, \<^verbatim>\<open>resize(count)\<close> leaves capacity and size
  equal to \<open>count\<close>, the first \<open>min count size()\<close> elements as they were, and the
  default value in every slot from the old size up to \<open>count\<close>; \<^verbatim>\<open>resize(size())\<close>
  leaves the container as it is.
\<close>

theorem resize_spec:
  assumes "well_formed al"
  shows "(count \<noteq> size_al al \<longrightarrow>
            capacity (resize al count) = count \<and> size_al (resize al count) = count
          \<and> take (min count (size_al al)) (elems (resize al count))
              = take (min count (size_al al)) (elems al)
          \<and> drop (size_al al) (elems (resize al count))
              = replicate (count - size_al al) default)
       \<and> resize al (size_al al) = al"
proof -
  let ?r = "resize al count"
  from assms have wf: "m_size al \<le> m_capacity al" "length (m_data al) = m_capacity al"
    by (simp_all add: well_formed_def)
  have same: "resize al (size_al al) = al" by (simp add: resize_def)
  have diff: "capacity ?r = count \<and> size_al ?r = count
      \<and> take (min count (size_al al)) (elems ?r) = take (min count (size_al al)) (elems al)
      \<and> drop (size_al al) (elems ?r) = replicate (count - size_al al) default"
    if ne: "count \<noteq> size_al al"
  proof -
    have sz: "m_size ?r = count" and cap: "m_capacity ?r = count"
      using ne by (auto simp: resize_def Let_def)
    have data: "m_data ?r ! i = (if i < min count (m_size al) then m_data al ! i else default)"
      if "i < count" for i
      using ne that by (auto simp: resize_def Let_def size_al_def nth_std_copy)
    have keep: "take (min count (size_al al)) (elems ?r) = take (min count (size_al al)) (elems al)"
      by (rule nth_equalityI) (simp_all add: sz size_al_def data)
    have fresh: "drop (size_al al) (elems ?r) = replicate (count - size_al al) default"
      by (rule nth_equalityI) (simp_all add: sz size_al_def data)
    show ?thesis using sz cap keep fresh by (simp add: size_al_def capacity_def)
  qed
  show ?thesis using same diff by blast
qed

theorem resize_spec_witness:
  "well_formed (ArrayList_init [1, 2, 3 :: int])
   \<and> 5 \<noteq> size_al (ArrayList_init [1, 2, 3 :: int])
   \<and> capacity (resize (ArrayList_init [1, 2, 3 :: int]) 5) = 5
   \<and> size_al (resize (ArrayList_init [1, 2, 3 :: int]) 5) = 5
   \<and> take 3 (elems (resize (ArrayList_init [1, 2, 3 :: int]) 5)) = [1, 2, 3]
   \<and> drop 3 (elems (resize (ArrayList_init [1, 2, 3 :: int]) 5)) = [0, 0]
   \<and> 2 \<noteq> size_al (ArrayList_init [1, 2, 3 :: int])
   \<and> capacity (resize (ArrayList_init [1, 2, 3 :: int]) 2) = 2
   \<and> elems (resize (ArrayList_init [1, 2, 3 :: int]) 2) = [1, 2]"
proof -
  let ?a = "ArrayList_init [1, 2, 3 :: int]"
  have h: "well_formed ?a" by (rule well_formed_init)
  have s: "size_al ?a = 3" by (simp add: size_al_def)
  have "length (elems (resize ?a 2)) = 2"
    using resize_spec [OF h, of 2] s by (simp add: size_al_def)
  then have "take 2 (elems (resize ?a 2)) = elems (resize ?a 2)" by simp
  then show ?thesis
    using h s resize_spec [OF h, of 5] resize_spec [OF h, of 2]
    by (simp add: elems_init default_int_def numeral_2_eq_2)
qed

section \<open>Concatenation\<close>

lemma size_plus_assign [simp]:
  "m_size (plus_assign junk al other) = m_size al + m_size other"
  by (simp add: plus_assign_def Let_def)

lemma well_formed_plus_assign:
  "well_formed al \<Longrightarrow> well_formed (plus_assign junk al other)"
  by (auto simp: well_formed_def plus_assign_def Let_def size_al_def capacity_def)

lemma elems_plus_assign:
  assumes "well_formed al"
  shows "elems (plus_assign junk al other) = elems al @ elems other"
proof (rule nth_equalityI)
  show "length (elems (plus_assign junk al other)) = length (elems al @ elems other)"
    by simp
next
  fix i assume "i < length (elems (plus_assign junk al other))"
  then have i: "i < m_size al + m_size other" by simp
  from assms have wf: "m_size al \<le> m_capacity al" "length (m_data al) = m_capacity al"
    by (simp_all add: well_formed_def)
  have "m_data (plus_assign junk al other) ! i =
      (if i < m_size al then m_data al ! i else m_data other ! (i - m_size al))"
    using i wf
    by (auto simp: plus_assign_def Let_def size_al_def capacity_def nth_std_copy)
  then show "elems (plus_assign junk al other) ! i = (elems al @ elems other) ! i"
    using i by (simp add: nth_append)
qed

text \<open>
  Claim C7. The size of \<open>a + b\<close> is the sum of the sizes, and its elements are those of
  \<open>a\<close> in order followed by those of \<open>b\<close> in order, whatever the fresh array of
  \<^verbatim>\<open>operator+=\<close> held, empty operands included; and after the call \<open>a\<close> and \<open>b\<close>
  are what they were before it, in capacity, size and every slot.
\<close>

theorem concatenation:
  assumes "well_formed a" and "well_formed b"
  shows "size_al (fst (operator_plus junk a b)) = size_al a + size_al b
   \<and> elems (fst (operator_plus junk a b)) = elems a @ elems b
   \<and> fst (snd (operator_plus junk a b)) = a
   \<and> snd (snd (operator_plus junk a b)) = b"
  by (simp add: operator_plus_def Let_def size_al_def elems_plus_assign [OF well_formed_copy]
      elems_copy)

theorem concatenation_witness:
  "well_formed (ArrayList_init [1, 2 :: int]) \<and> well_formed (ArrayList_init [3, 4 :: int])
   \<and> well_formed (ArrayList_count 0 :: int ArrayList)
   \<and> size_al (fst (operator_plus (\<lambda>i. 0) (ArrayList_init [1, 2 :: int]) (ArrayList_init [3, 4])))
       = 4
   \<and> elems (fst (operator_plus (\<lambda>i. 0) (ArrayList_init [1, 2 :: int]) (ArrayList_init [3, 4])))
       = [1, 2, 3, 4]
   \<and> fst (snd (operator_plus (\<lambda>i. 0) (ArrayList_init [1, 2 :: int]) (ArrayList_init [3, 4])))
       = ArrayList_init [1, 2]
   \<and> snd (snd (operator_plus (\<lambda>i. 0) (ArrayList_init [1, 2 :: int]) (ArrayList_init [3, 4])))
       = ArrayList_init [3, 4]
   \<and> elems (fst (operator_plus (\<lambda>i. 0) (ArrayList_count 0) (ArrayList_init [3, 4 :: int])))
       = [3, 4]
   \<and> elems (fst (operator_plus (\<lambda>i. 0) (ArrayList_init [1, 2 :: int]) (ArrayList_count 0)))
       = [1, 2]"
proof -
  have a: "well_formed (ArrayList_init [1, 2 :: int])" by (rule well_formed_init)
  have b: "well_formed (ArrayList_init [3, 4 :: int])" by (rule well_formed_init)
  have e: "well_formed (ArrayList_count 0 :: int ArrayList)" by (rule well_formed_count)
  have ee: "elems (ArrayList_count 0 :: int ArrayList) = []"
    by (simp add: elems_def size_al_def ArrayList_count_def)
  show ?thesis
    using a b e concatenation [OF a b, of "\<lambda>i. 0"] concatenation [OF e b, of "\<lambda>i. 0"]
      concatenation [OF a e, of "\<lambda>i. 0"]
    by (simp add: elems_init size_al_def ee)
qed

section \<open>Copying and moving\<close>

lemma operator_eq_iff: "operator_eq lhs rhs \<longleftrightarrow> elems lhs = elems rhs"
proof -
  have "elems lhs = elems rhs \<longleftrightarrow>
      m_size lhs = m_size rhs \<and> (\<forall>k<m_size lhs. m_data lhs ! k = m_data rhs ! k)"
    by (auto simp: list_eq_iff_nth_eq)
  then show ?thesis by (simp add: operator_eq_def std_equal_iff)
qed

text \<open>
  Claim C8. A copy-constructed container compares equal to its source under
  \<^verbatim>\<open>operator==\<close>, with the same size and the same elements. Move construction leaves
  the source with size 0 and capacity 0, and the new container with the elements the
  source had.
\<close>

theorem copy_move_roundtrip:
  assumes "well_formed x"
  shows "operator_eq (ArrayList_copy x) x
   \<and> size_al (ArrayList_copy x) = size_al x
   \<and> elems (ArrayList_copy x) = elems x
   \<and> size_al (snd (ArrayList_move x)) = 0
   \<and> capacity (snd (ArrayList_move x)) = 0
   \<and> elems (fst (ArrayList_move x)) = elems x
   \<and> operator_eq (fst (ArrayList_move x)) x"
proof -
  have "size_al (snd (ArrayList_move x)) = 0 \<and> capacity (snd (ArrayList_move x)) = 0"
    by (simp add: size_al_def capacity_def ArrayList_move_def)
  then show ?thesis
    by (simp add: operator_eq_iff elems_copy elems_move size_al_def)
qed

theorem copy_move_roundtrip_witness:
  "push_back (ArrayList_init [1, 2]) (Outside 3)
     = Inr \<lparr>m_capacity = 4, m_size = 3, m_data = [1, 2, 3, 0 :: int]\<rparr>
   \<and> well_formed \<lparr>m_capacity = 4, m_size = 3, m_data = [1, 2, 3, 0 :: int]\<rparr>
   \<and> operator_eq (ArrayList_copy \<lparr>m_capacity = 4, m_size = 3, m_data = [1, 2, 3, 0 :: int]\<rparr>)
        \<lparr>m_capacity = 4, m_size = 3, m_data = [1, 2, 3, 0 :: int]\<rparr>
   \<and> size_al (ArrayList_copy \<lparr>m_capacity = 4, m_size = 3, m_data = [1, 2, 3, 0 :: int]\<rparr>) = 3
   \<and> elems (ArrayList_copy \<lparr>m_capacity = 4, m_size = 3, m_data = [1, 2, 3, 0 :: int]\<rparr>)
       = [1, 2, 3]
   \<and> size_al (snd (ArrayList_move \<lparr>m_capacity = 4, m_size = 3, m_data = [1, 2, 3, 0 :: int]\<rparr>))
       = 0
   \<and> capacity (snd (ArrayList_move \<lparr>m_capacity = 4, m_size = 3, m_data = [1, 2, 3, 0 :: int]\<rparr>))
       = 0
   \<and> elems (fst (ArrayList_move \<lparr>m_capacity = 4, m_size = 3, m_data = [1, 2, 3, 0 :: int]\<rparr>))
       = [1, 2, 3]"
proof -
  let ?x = "\<lparr>m_capacity = 4, m_size = 3, m_data = [1, 2, 3, 0 :: int]\<rparr>"
  have p: "push_back (ArrayList_init [1, 2]) (Outside 3) = Inr ?x" by code_simp
  have h: "well_formed ?x" by (simp add: well_formed_def)
  have e: "elems ?x = [1, 2, 3]" by code_simp
  show ?thesis
    using p h e copy_move_roundtrip [OF h] by (simp add: size_al_def)
qed

text \<open>
  Claim C10. The capacity of a copy-constructed container is the size of its source: the
  spare capacity of the source is not carried over.
\<close>

theorem copy_capacity: "capacity (ArrayList_copy x) = size_al x"
  by (simp add: ArrayList_copy_def ArrayList_count_def capacity_def size_al_def Let_def)

section \<open>The invariant\<close>

lemma well_formed_insert:
  assumes "well_formed al" and "insert_al ord al pos val = Inr (al', p)"
  shows "well_formed al'"
proof (cases "size_al al = capacity al")
  case True
  have "insert_al ord al pos val = Inl OutOfRange
      \<or> insert_al ord al pos val = Inl UndefinedBehaviour"
    using insert_out_of_range [of ord al pos val] insert_full [OF _ _ True, of pos ord val]
    by fastforce
  with assms(2) show ?thesis by auto
next
  case False
  with assms show ?thesis
    by (auto simp: insert_al_def Let_def well_formed_def size_al_def capacity_def
        copy_backward_it_def split: if_splits arg_order.splits option.splits)
qed

lemma well_formed_erase:
  assumes "well_formed al" and "erase al pos = Inr (al', p)"
  shows "well_formed al'"
  using assms
  by (auto simp: erase_def well_formed_def copy_it_def split: if_splits)

lemma well_formed_resize: "well_formed al \<Longrightarrow> well_formed (resize al count)"
  by (simp add: resize_def well_formed_def Let_def)

lemma well_formed_clear: "well_formed al \<Longrightarrow> well_formed (clear al)"
  by (simp add: clear_def well_formed_def)

lemma well_formed_swap:
  "well_formed al \<Longrightarrow> well_formed other \<Longrightarrow>
   well_formed (fst (swap_al al other)) \<and> well_formed (snd (swap_al al other))"
  by (simp add: swap_al_def well_formed_def)

lemma well_formed_copy_assign:
  "well_formed al \<Longrightarrow> well_formed rhs \<Longrightarrow> well_formed (copy_assign same al rhs)"
  by (simp add: copy_assign_def well_formed_def Let_def size_al_def capacity_def)

lemma well_formed_move_assign:
  "well_formed al \<Longrightarrow> well_formed other \<Longrightarrow>
   well_formed (fst (move_assign same al other)) \<and> well_formed (snd (move_assign same al other))"
  by (simp add: move_assign_def well_formed_def)

lemma reachable_well_formed: "reachable al \<Longrightarrow> well_formed al"
proof (induction rule: reachable.induct)
  case (r_push_back al val al')
  then show ?case by (blast intro: well_formed_push_back)
next
  case (r_insert al ord pos val al' p)
  then show ?case by (blast intro: well_formed_insert)
next
  case (r_erase al pos al' p)
  then show ?case by (blast intro: well_formed_erase)
qed (simp_all add: well_formed_count well_formed_init well_formed_copy well_formed_move
      well_formed_resize well_formed_clear well_formed_swap well_formed_copy_assign
      well_formed_move_assign well_formed_plus_assign operator_plus_def Let_def)

text \<open>
  Claim C9. \<open>size() \<le> capacity()\<close> holds for every reachable container: after every
  constructor, and after \<^verbatim>\<open>push_back\<close>, \<^verbatim>\<open>insert\<close>, \<^verbatim>\<open>erase\<close>,
  \<^verbatim>\<open>resize\<close>, \<^verbatim>\<open>clear\<close>, \<^verbatim>\<open>swap\<close>, copy and move assignment,
  \<^verbatim>\<open>operator+=\<close> and \<^verbatim>\<open>operator+\<close> on reachable containers.
\<close>

theorem size_le_capacity: "reachable al \<Longrightarrow> size_al al \<le> capacity al"
proof -
  assume "reachable al"
  then have "well_formed al" by (rule reachable_well_formed)
  then show ?thesis by (simp add: well_formed_def size_al_def capacity_def)
qed

theorem size_le_capacity_witness:
  "push_back (ArrayList_count 0) (Outside 7)
     = Inr \<lparr>m_capacity = 1, m_size = 1, m_data = [7 :: int]\<rparr>
   \<and> reachable (resize \<lparr>m_capacity = 1, m_size = 1, m_data = [7 :: int]\<rparr> 3)
   \<and> size_al (resize \<lparr>m_capacity = 1, m_size = 1, m_data = [7 :: int]\<rparr> 3)
       \<le> capacity (resize \<lparr>m_capacity = 1, m_size = 1, m_data = [7 :: int]\<rparr> 3)
   \<and> erase (ArrayList_init [1, 2, 3 :: int]) 1
       = Inr (\<lparr>m_capacity = 3, m_size = 2, m_data = [1, 3, 3]\<rparr>, 1)
   \<and> reachable \<lparr>m_capacity = 3, m_size = 2, m_data = [1, 3, 3 :: int]\<rparr>
   \<and> size_al \<lparr>m_capacity = 3, m_size = 2, m_data = [1, 3, 3 :: int]\<rparr>
       \<le> capacity \<lparr>m_capacity = 3, m_size = 2, m_data = [1, 3, 3 :: int]\<rparr>"
proof -
  have p: "push_back (ArrayList_count 0) (Outside 7)
      = Inr \<lparr>m_capacity = 1, m_size = 1, m_data = [7 :: int]\<rparr>"
    by code_simp
  have r: "reachable (resize \<lparr>m_capacity = 1, m_size = 1, m_data = [7 :: int]\<rparr> 3)"
    by (rule r_resize [OF r_push_back [OF r_count p]])
  have e: "erase (ArrayList_init [1, 2, 3 :: int]) 1
      = Inr (\<lparr>m_capacity = 3, m_size = 2, m_data = [1, 3, 3]\<rparr>, 1)"
    by code_simp
  have r': "reachable \<lparr>m_capacity = 3, m_size = 2, m_data = [1, 3, 3 :: int]\<rparr>"
    by (rule r_erase [OF r_init e])
  show ?thesis
    using p r e r' size_le_capacity [OF r] size_le_capacity [OF r'] by simp
qed

end
